theory Spec2Isabelle
  imports Complex_Main
begin

section \<open>Data model\<close>

text \<open>
  The program is written against pandas. A \<open>DataFrame\<close> is modelled by its columns in
  order, each column carrying its dtype: a numeric column (\<open>int64\<close>/\<open>float64\<close>, where a
  missing value is NaN), an object column (text, as \<open>read_csv\<close> produces it) or a
  \<open>datetime64\<close> column (where a missing value is NaT). A missing cell is \<open>None\<close>.
  A number is a rational, as every finite \<open>float64\<close> and every \<open>int64\<close> is; a cell
  that holds an infinity is outside the model. What pandas computes in \<open>float64\<close>, the
  mean of some numbers, is not computed here: it is a parameter of the functions that
  call it. A timestamp is kept as its calendar date, which is all that monthly bucketing
  reads.
\<close>

datatype timestamp = Timestamp (year: int) (month: nat) (day: nat)

datatype scalar = Number rat | Text string

datatype column =
    NumCol "rat option list"
  | ObjCol "string option list"
  | DtCol "timestamp option list"

type_synonym frame = "(string \<times> column) list"

datatype error =
    KeyError string
  | ParseError nat scalar
  | TypeError string
  | ValueError string
  | AttributeError string

text \<open>
  Python passes a \<open>DataFrame\<close> by reference, and \<open>df[col] = ...\<close> writes into the
  object the caller holds. The heap is the list of live frames, a reference is a position
  in it, and a new object is appended.
\<close>

type_synonym heap = "frame list"

definition alloc :: "heap \<Rightarrow> frame \<Rightarrow> heap \<times> nat" where
  "alloc h df = (h @ [df], length h)"

subsection \<open>Columns and frames\<close>

fun col_len :: "column \<Rightarrow> nat" where
  "col_len (NumCol xs) = length xs"
| "col_len (ObjCol xs) = length xs"
| "col_len (DtCol xs) = length xs"

fun is_number :: "column \<Rightarrow> bool" where
  "is_number (NumCol xs) = True"
| "is_number (ObjCol xs) = False"
| "is_number (DtCol xs) = False"

text \<open>\<open>isna\<close>: one flag per row, true where the cell is missing.\<close>

fun isna :: "column \<Rightarrow> bool list" where
  "isna (NumCol xs) = map (\<lambda>x. x = None) xs"
| "isna (ObjCol xs) = map (\<lambda>x. x = None) xs"
| "isna (DtCol xs) = map (\<lambda>x. x = None) xs"


definition nrows :: "frame \<Rightarrow> nat" where
  "nrows df = (case df of [] \<Rightarrow> 0 | (n, c) # rest \<Rightarrow> col_len c)"

text \<open>A frame as pandas builds it: column labels are unique and every column has one
  cell per row.\<close>

definition wf_frame :: "frame \<Rightarrow> bool" where
  "wf_frame df = (distinct (map fst df) \<and> (\<forall>(n, c) \<in> set df. col_len c = nrows df))"

text \<open>\<open>df[name] = c\<close>: replaces the column in place when the label exists, appends it
  otherwise.\<close>

fun setitem :: "frame \<Rightarrow> string \<Rightarrow> column \<Rightarrow> frame" where
  "setitem [] name c = [(name, c)]"
| "setitem ((m, d) # df) name c =
     (if m = name then (name, c) # df else (m, d) # setitem df name c)"

text \<open>\<open>df.select_dtypes(include="number").columns\<close> and
  \<open>df.select_dtypes(exclude="number").columns\<close>.\<close>

definition select_number :: "frame \<Rightarrow> string list" where
  "select_number df = map fst (filter (\<lambda>(n, c). is_number c) df)"

definition select_non_number :: "frame \<Rightarrow> string list" where
  "select_non_number df = map fst (filter (\<lambda>(n, c). \<not> is_number c) df)"

text \<open>\<open>Index.drop(label, errors='ignore')\<close>.\<close>

definition drop_label :: "string list \<Rightarrow> string \<Rightarrow> string list" where
  "drop_label names name = filter (\<lambda>n. n \<noteq> name) names"

subsection \<open>\<open>pd.to_datetime\<close>\<close>

text \<open>
  The conversion of one non-missing value is the library's and is a parameter
  \<open>parse\<close>: \<open>None\<close> when the value cannot be turned into a timestamp. A missing value
  is not handed to it: pandas converts NaN and None to NaT. With the default
  \<open>errors='raise'\<close> the first value that fails aborts the conversion; the error carries
  its position and the value. Text that pandas itself reads as a missing date, such as
  the empty string, is not modelled apart: \<open>read_csv\<close> has already made it NaN.
\<close>

fun convert_from :: "(scalar \<Rightarrow> timestamp option) \<Rightarrow> nat \<Rightarrow> scalar option list
    \<Rightarrow> error + timestamp option list" where
  "convert_from parse i [] = Inr []"
| "convert_from parse i (None # xs) =
     (case convert_from parse (Suc i) xs of
        Inl e \<Rightarrow> Inl e
      | Inr ts \<Rightarrow> Inr (None # ts))"
| "convert_from parse i (Some v # xs) =
     (case parse v of
        None \<Rightarrow> Inl (ParseError i v)
      | Some t \<Rightarrow>
          (case convert_from parse (Suc i) xs of
             Inl e \<Rightarrow> Inl e
           | Inr ts \<Rightarrow> Inr (Some t # ts)))"

fun scalars :: "column \<Rightarrow> scalar option list" where
  "scalars (NumCol xs) = map (map_option Number) xs"
| "scalars (ObjCol xs) = map (map_option Text) xs"
| "scalars (DtCol xs) = []"

fun to_datetime :: "(scalar \<Rightarrow> timestamp option) \<Rightarrow> column \<Rightarrow> error + timestamp option list" where
  "to_datetime parse (DtCol ts) = Inr ts"
| "to_datetime parse c = convert_from parse 0 (scalars c)"

subsection \<open>\<open>Series.mean\<close>, \<open>Series.fillna\<close>, \<open>DataFrame.dropna\<close>\<close>

text \<open>
  \<open>Series.mean\<close> skips missing values; over no value at all it is NaN, not an error.
  Over some values it is what the library's \<open>float64\<close> code makes of them, the
  parameter \<open>avg\<close>: the arithmetic mean up to the rounding of the conversions, of the
  sum and of the division. Nothing is assumed of \<open>avg\<close>.
\<close>

definition present :: "'a option list \<Rightarrow> 'a list" where
  "present xs = map the (filter (\<lambda>x. x \<noteq> None) xs)"

definition series_mean :: "(rat list \<Rightarrow> rat) \<Rightarrow> rat option list \<Rightarrow> rat option" where
  "series_mean avg xs =
     (let vs = present xs
      in if vs = [] then None else Some (avg vs))"

text \<open>\<open>fillna(v)\<close>: filling with NaN leaves the column as it is.\<close>

definition series_fillna :: "rat option \<Rightarrow> rat option list \<Rightarrow> rat option list" where
  "series_fillna v xs =
     (case v of
        None \<Rightarrow> xs
      | Some m \<Rightarrow> map (\<lambda>x. case x of None \<Rightarrow> Some m | Some y \<Rightarrow> Some y) xs)"

fun take_rows :: "nat list \<Rightarrow> column \<Rightarrow> column" where
  "take_rows keep (NumCol xs) = NumCol (map ((!) xs) keep)"
| "take_rows keep (ObjCol xs) = ObjCol (map ((!) xs) keep)"
| "take_rows keep (DtCol xs) = DtCol (map ((!) xs) keep)"

text \<open>\<open>dropna(subset=...)\<close> keeps the rows with no missing cell in the columns of
  \<open>subset\<close>, in order, and returns a new frame.\<close>

definition complete_rows :: "frame \<Rightarrow> string list \<Rightarrow> nat list" where
  "complete_rows df names =
     filter (\<lambda>i. \<forall>n \<in> set names.
               (case map_of df n of None \<Rightarrow> True | Some c \<Rightarrow> \<not> isna c ! i))
            [0..<nrows df]"

definition dropna :: "frame \<Rightarrow> string list \<Rightarrow> frame" where
  "dropna df names = map (\<lambda>(n, c). (n, take_rows (complete_rows df names) c)) df"

section \<open>\<open>clean_data\<close>\<close>

text \<open>
  The body of the loop \<open>for col in num_cols\<close>: the mean is read from the frame as it is
  when the column's turn comes, and the filled column is written back into the same
  object. Every label of \<open>num_cols\<close> names a numeric column of the frame, so the other
  branch is never taken.
\<close>

definition fill_col :: "(rat list \<Rightarrow> rat) \<Rightarrow> frame \<Rightarrow> string \<Rightarrow> frame" where
  "fill_col avg df col =
     (case map_of df col of
        Some (NumCol xs) \<Rightarrow> setitem df col (NumCol (series_fillna (series_mean avg xs) xs))
      | _ \<Rightarrow> df)"

text \<open>
  \<open>clean_data\<close> takes the heap and the reference \<open>df\<close> the caller passes. The only
  statement that can raise is the first one, before anything is written, so an error
  leaves the heap as it was. On success it returns the heap after its writes and the
  reference to the frame \<open>dropna\<close> created.
\<close>

definition clean_data :: "(rat list \<Rightarrow> rat) \<Rightarrow> (scalar \<Rightarrow> timestamp option) \<Rightarrow> heap \<Rightarrow> nat
    \<Rightarrow> string \<Rightarrow> error + (heap \<times> nat)" where
  "clean_data avg parse h df date_col =
     (case map_of (h ! df) date_col of
        None \<Rightarrow> Inl (KeyError date_col)
      | Some c \<Rightarrow>
          (case to_datetime parse c of
             Inl e \<Rightarrow> Inl e
           | Inr ts \<Rightarrow>
               (let h1 = h[df := setitem (h ! df) date_col (DtCol ts)];
                    num_cols = select_number (h1 ! df);
                    obj_cols = drop_label (select_non_number (h1 ! df)) date_col;
                    h2 = fold (\<lambda>col hp. hp[df := fill_col avg (hp ! df) col]) num_cols h1
                in Inr (alloc h2 (dropna (h2 ! df) obj_cols)))))"

subsection \<open>A parser and a mean for the examples\<close>

text \<open>
  The closed examples below need one concrete parser. \<open>iso_date\<close> reads the text form
  \<open>YYYY-MM-DD\<close>, which pandas accepts, and checks the day against the month. It is used
  on text dates only.
\<close>

definition digit :: "char \<Rightarrow> nat option" where
  "digit c = (let n = (of_char c :: nat) in if 48 \<le> n \<and> n \<le> 57 then Some (n - 48) else None)"

fun digits :: "string \<Rightarrow> nat option" where
  "digits [] = Some 0"
| "digits (c # cs) =
     (case digit c of
        None \<Rightarrow> None
      | Some d \<Rightarrow> (case digits cs of None \<Rightarrow> None | Some r \<Rightarrow> Some (d * 10 ^ length cs + r)))"

definition days_in_month :: "nat \<Rightarrow> nat \<Rightarrow> nat" where
  "days_in_month y m =
     (if m = 2 then (if y mod 4 = 0 \<and> (y mod 100 \<noteq> 0 \<or> y mod 400 = 0) then 29 else 28)
      else if m \<in> {4, 6, 9, 11} then 30 else 31)"

fun iso_date :: "scalar \<Rightarrow> timestamp option" where
  "iso_date (Text [y1, y2, y3, y4, s1, m1, m2, s2, d1, d2]) =
     (if s1 = CHR ''-'' \<and> s2 = CHR ''-'' then
        (case (digits [y1, y2, y3, y4], digits [m1, m2], digits [d1, d2]) of
           (Some y, Some m, Some d) \<Rightarrow>
             if 1 \<le> m \<and> m \<le> 12 \<and> 1 \<le> d \<and> d \<le> days_in_month y m
             then Some (Timestamp (int y) m d) else None
         | _ \<Rightarrow> None)
      else None)"
| "iso_date v = None"

text \<open>
  They need one concrete mean too. \<open>binary64\<close> rounds a rational to the nearest
  \<open>float64\<close>, ties to the even mantissa, for magnitudes in the normal range.
  \<open>example_mean\<close> converts the values, adds them exactly and rounds the quotient once.
  That is what the library returns whenever the sum of the converted values is itself a
  \<open>float64\<close> whatever the order of the additions, as for the few small integers of the
  examples; it is used on such values only.
\<close>

fun bitlen :: "nat \<Rightarrow> nat" where
  "bitlen n = (if n = 0 then 0 else Suc (bitlen (n div 2)))"

declare bitlen.simps [simp del]

definition pow2 :: "int \<Rightarrow> rat" where
  "pow2 e = (if 0 \<le> e then 2 ^ nat e else 1 / 2 ^ nat (- e))"

definition round_half_even :: "rat \<Rightarrow> int" where
  "round_half_even x =
     (let f = \<lfloor>x\<rfloor>; d = x - of_int f
      in if d < 1 / 2 then f else if 1 / 2 < d then f + 1 else if even f then f else f + 1)"

definition exponent :: "rat \<Rightarrow> int" where
  "exponent q =
     (let (a, b) = quotient_of \<bar>q\<bar>;
          e = int (bitlen (nat a)) - int (bitlen (nat b))
      in if pow2 e \<le> \<bar>q\<bar> then e else e - 1)"

definition binary64 :: "rat \<Rightarrow> rat" where
  "binary64 q =
     (if q = 0 then 0
      else (let u = pow2 (exponent q - 52)
            in of_int (round_half_even (q / u)) * u))"

definition example_mean :: "rat list \<Rightarrow> rat" where
  "example_mean vs = binary64 (sum_list (map binary64 vs) / of_nat (length vs))"

section \<open>Notions used in the statements\<close>

text \<open>
  \<open>impute\<close> is what one turn of the loop makes of a column; \<open>imputed\<close> is the frame the
  caller holds once \<open>clean_data\<close> has run through its writes, given the converted dates;
  \<open>text_cols\<close> are the labels handed to \<open>dropna\<close>; \<open>dated\<close> says that a frame has the
  named column with datetime dtype, as \<open>clean_data\<close> leaves its date column.
  \<open>no_overflow\<close> says that the values are small enough for every sum of them, in any
  order and with its roundings, to stay in the finite range of \<open>float64\<close>: the
  library's mean of them is then a finite number, which is what \<open>avg\<close> can stand for.
\<close>

fun impute :: "(rat list \<Rightarrow> rat) \<Rightarrow> column \<Rightarrow> column" where
  "impute avg (NumCol xs) = NumCol (series_fillna (series_mean avg xs) xs)"
| "impute avg c = c"

definition imputed :: "(rat list \<Rightarrow> rat) \<Rightarrow> frame \<Rightarrow> string \<Rightarrow> timestamp option list
    \<Rightarrow> frame" where
  "imputed avg df date_col ts =
     map (\<lambda>(m, d). (m, if m = date_col then DtCol ts else impute avg d)) df"


definition text_cols :: "frame \<Rightarrow> string \<Rightarrow> string list" where
  "text_cols df date_col = map fst (filter (\<lambda>(m, d). m \<noteq> date_col \<and> \<not> is_number d) df)"


section \<open>\<open>aggregate_monthly\<close>\<close>

text \<open>
  The result of a resampling is a table indexed by month. A month is the integer
  \<open>12 * year + (month - 1)\<close>; it stands for the bucket label of \<open>resample('M')\<close>, the
  last day of that month. A cell is \<open>None\<close> where pandas has NaN.
\<close>

record table =
  index :: "int list"
  columns :: "(string \<times> rat option list) list"

definition month_key :: "timestamp \<Rightarrow> int" where
  "month_key t = year t * 12 + int (month t) - 1"

text \<open>\<open>df.set_index(name)\<close> returns a new frame: the column becomes the index and leaves
  the columns. A frame without the column raises.\<close>

definition set_index :: "frame \<Rightarrow> string \<Rightarrow> error + (column \<times> frame)" where
  "set_index df name =
     (case map_of df name of
        None \<Rightarrow> Inl (KeyError name)
      | Some c \<Rightarrow> Inr (c, filter (\<lambda>(m, d). m \<noteq> name) df))"

text \<open>
  \<open>resample('M')\<close> needs a datetime index. The buckets run from the earliest to the
  latest date of the index, so an index that has rows but no date at all raises: its
  earliest date is NaT, and pandas fails on it with \<open>AttributeError\<close>. An index with no
  row is accepted.
\<close>

definition resample :: "column \<Rightarrow> error + timestamp option list" where
  "resample c =
     (case c of
        DtCol ix \<Rightarrow>
          if ix \<noteq> [] \<and> present ix = [] then Inl (AttributeError ''NaTType'')
          else Inr ix
      | _ \<Rightarrow> Inl (TypeError ''Only valid with DatetimeIndex''))"

text \<open>
  Rows whose index is NaT belong to no bucket. The buckets are all the months from the
  earliest to the latest row, with or without rows of their own.
\<close>

definition row_months :: "timestamp option list \<Rightarrow> int list" where
  "row_months ix = map month_key (present ix)"

definition month_bins :: "timestamp option list \<Rightarrow> int list" where
  "month_bins ix =
     (let ks = row_months ix
      in if ks = [] then [] else [Min (set ks)..Max (set ks)])"

definition bucket :: "timestamp option list \<Rightarrow> 'a list \<Rightarrow> int \<Rightarrow> 'a list" where
  "bucket ix xs k = map snd (filter (\<lambda>(t, x). map_option month_key t = Some k) (zip ix xs))"

text \<open>
  \<open>.mean()\<close> of the resampler, as pandas 2 has it. On an index with no row it returns
  the frame as it is, every column kept, text ones too. Otherwise a column that is not
  numeric makes it raise \<open>TypeError\<close>, and each numeric column is averaged within each
  bucket, missing values skipped, NaN for a bucket without values. The mean of the values
  of a bucket is the resampler's \<open>float64\<close> computation, the parameter \<open>avg\<close>. A frame
  read by \<open>read_csv\<close> and cleaned has one datetime column, its date column, which is the
  index here; any other column that is not numeric is treated as text.
\<close>

definition numeric_columns :: "frame \<Rightarrow> (string \<times> rat option list) list" where
  "numeric_columns df =
     concat (map (\<lambda>(n, c). case c of NumCol xs \<Rightarrow> [(n, xs)] | _ \<Rightarrow> []) df)"

definition resample_mean :: "(rat list \<Rightarrow> rat) \<Rightarrow> column \<times> frame \<Rightarrow> error + table" where
  "resample_mean avg idf =
     (case resample (fst idf) of
        Inl e \<Rightarrow> Inl e
      | Inr ix \<Rightarrow>
          if ix = [] then Inr \<lparr>index = [], columns = map (\<lambda>(n, c). (n, [])) (snd idf)\<rparr>
          else if \<exists>(n, c) \<in> set (snd idf). \<not> is_number c
          then Inl (TypeError ''agg function failed'')
          else Inr \<lparr>index = month_bins ix,
                    columns = map (\<lambda>(n, xs). (n, map (\<lambda>k. series_mean avg (bucket ix xs k))
                                                      (month_bins ix)))
                                  (numeric_columns (snd idf))\<rparr>)"

text \<open>\<open>.size()\<close> counts the rows of each bucket; \<open>.to_frame(name)\<close> makes the counts a
  one-column table.\<close>

definition resample_size :: "column \<times> frame \<Rightarrow> error + (int list \<times> rat option list)" where
  "resample_size idf =
     (case resample (fst idf) of
        Inl e \<Rightarrow> Inl e
      | Inr ix \<Rightarrow>
          Inr (month_bins ix, map (\<lambda>k. Some (of_nat (length (bucket ix ix k)))) (month_bins ix)))"

definition to_frame :: "int list \<times> rat option list \<Rightarrow> string \<Rightarrow> table" where
  "to_frame s name = \<lparr>index = fst s, columns = [(name, snd s)]\<rparr>"

definition add_prefix :: "string \<Rightarrow> table \<Rightarrow> table" where
  "add_prefix p t = t\<lparr>columns := map (\<lambda>(n, xs). (p @ n, xs)) (columns t)\<rparr>"

text \<open>
  \<open>left.join(right, how='outer')\<close> on tables whose index has no duplicate: the index of
  the result is the sorted union, the columns are those of \<open>left\<close> then those of
  \<open>right\<close>, and a cell is NaN where its table has no row for the month. Column labels
  present on both sides raise \<open>ValueError\<close>.
\<close>

definition cell_at :: "int list \<Rightarrow> rat option list \<Rightarrow> int \<Rightarrow> rat option" where
  "cell_at ix xs k = (case map_of (zip ix xs) k of None \<Rightarrow> None | Some v \<Rightarrow> v)"

definition reindex :: "table \<Rightarrow> int list \<Rightarrow> (string \<times> rat option list) list" where
  "reindex t ix = map (\<lambda>(n, xs). (n, map (cell_at (index t) xs) ix)) (columns t)"

definition join_outer :: "table \<Rightarrow> table \<Rightarrow> error + table" where
  "join_outer left right =
     (if \<exists>n \<in> set (map fst (columns left)). n \<in> set (map fst (columns right))
      then Inl (ValueError ''columns overlap but no suffix specified'')
      else
        (let ix = sort (remdups (index left @ index right))
         in Inr \<lparr>index = ix, columns = reindex left ix @ reindex right ix\<rparr>))"

definition fillna_zero :: "table \<Rightarrow> table" where
  "fillna_zero t =
     t\<lparr>columns := map (\<lambda>(n, xs). (n, map (\<lambda>x. case x of None \<Rightarrow> Some 0 | Some v \<Rightarrow> Some v) xs))
                       (columns t)\<rparr>"

definition aggregate_monthly :: "(rat list \<Rightarrow> rat) \<Rightarrow> frame \<Rightarrow> frame \<Rightarrow> frame
    \<Rightarrow> error + table" where
  "aggregate_monthly avg air_df hosp_df jp_df =
     (case set_index air_df ''timestamp'' of Inl e \<Rightarrow> Inl e | Inr air \<Rightarrow>
      case set_index hosp_df ''admission_date'' of Inl e \<Rightarrow> Inl e | Inr hosp \<Rightarrow>
      case set_index jp_df ''admission_date'' of Inl e \<Rightarrow> Inl e | Inr jp \<Rightarrow>
      case resample_mean avg air of Inl e \<Rightarrow> Inl e | Inr air_mean \<Rightarrow>
      case resample_size hosp of Inl e \<Rightarrow> Inl e | Inr hosp_size \<Rightarrow>
      case resample_size jp of Inl e \<Rightarrow> Inl e | Inr jp_size \<Rightarrow>
      case join_outer (add_prefix ''air_'' air_mean)
                      (to_frame hosp_size ''hospitalizations_total'') of Inl e \<Rightarrow> Inl e | Inr merged \<Rightarrow>
      case join_outer merged (to_frame jp_size ''hospitalizations_jp'') of Inl e \<Rightarrow> Inl e | Inr merged \<Rightarrow>
      Inr (fillna_zero merged))"

text \<open>Reading the inputs and the result in the statements below.\<close>

definition dates :: "frame \<Rightarrow> string \<Rightarrow> timestamp option list" where
  "dates df name = (case map_of df name of Some (DtCol ix) \<Rightarrow> ix | _ \<Rightarrow> [])"


text \<open>
  Every table \<open>aggregate_monthly\<close> builds has columns that are a function of the month,
  mapped over the index. \<open>tab\<close> writes a table in that form, \<open>bucket_means\<close> are the
  columns of the resampled air frame in it, \<open>only_on\<close> is a column after a join (NaN
  outside the months its own table had) and \<open>zero_fill\<close> a cell after \<open>fillna(0)\<close>.
  \<open>span\<close> are the months from the first to the last month of a list.
\<close>

definition bucket_means :: "(rat list \<Rightarrow> rat) \<Rightarrow> timestamp option list \<Rightarrow> frame
    \<Rightarrow> (string \<times> (int \<Rightarrow> rat option)) list" where
  "bucket_means avg ix df =
     (if ix = [] then map (\<lambda>(n, c). (n, \<lambda>k. None)) df
      else map (\<lambda>(n, xs). (n, \<lambda>k. series_mean avg (bucket ix xs k))) (numeric_columns df))"


definition tab :: "int list \<Rightarrow> (string \<times> (int \<Rightarrow> rat option)) list \<Rightarrow> table" where
  "tab ix gs = \<lparr>index = ix, columns = map (\<lambda>(n, g). (n, map g ix)) gs\<rparr>"

definition only_on :: "int list \<Rightarrow> (int \<Rightarrow> rat option) \<Rightarrow> int \<Rightarrow> rat option" where
  "only_on ix g k = (if k \<in> set ix then g k else None)"

definition zero_fill :: "rat option \<Rightarrow> rat option" where
  "zero_fill x = (case x of None \<Rightarrow> Some 0 | Some v \<Rightarrow> Some v)"

section \<open>Example inputs\<close>

text \<open>
  The frames and the table of the closed examples. Month 24288 is January 2024.
\<close>

definition visits :: frame where
  "visits = [(''admission_date'', ObjCol [Some ''2024-02-03'', Some ''2024-02-10'', Some ''2024-03-01'']),
             (''cid'', ObjCol [Some ''J18'', None, Some ''J45'']),
             (''age'', NumCol [Some 40, Some 50, None])]"

definition visits_filled :: frame where
  "visits_filled =
     [(''admission_date'', DtCol [Some (Timestamp 2024 2 3), Some (Timestamp 2024 2 10),
                                  Some (Timestamp 2024 3 1)]),
      (''cid'', ObjCol [Some ''J18'', None, Some ''J45'']),
      (''age'', NumCol [Some 40, Some 50, Some 45])]"

definition visits_clean :: frame where
  "visits_clean =
     [(''admission_date'', DtCol [Some (Timestamp 2024 2 3), Some (Timestamp 2024 3 1)]),
      (''cid'', ObjCol [Some ''J18'', Some ''J45'']),
      (''age'', NumCol [Some 40, Some 45])]"

definition air_jan :: frame where
  "air_jan = [(''timestamp'', DtCol [Some (Timestamp 2024 1 5), Some (Timestamp 2024 1 20)]),
              (''pm25'', NumCol [Some 10, Some 20]),
              (''station'', NumCol [Some 101, Some 102])]"

definition hosp_jan_mar :: frame where
  "hosp_jan_mar = [(''admission_date'', DtCol [Some (Timestamp 2024 1 9), Some (Timestamp 2024 3 2)]),
                   (''cid'', ObjCol [Some ''I10'', Some ''J18''])]"

definition jp_mar :: frame where
  "jp_mar = [(''admission_date'', DtCol [Some (Timestamp 2024 3 2)]),
             (''cid'', ObjCol [Some ''J18''])]"

definition monthly_example :: table where
  "monthly_example =
     \<lparr>index = [24288, 24289, 24290],
      columns = [(''air_pm25'', [Some 15, Some 0, Some 0]),
                 (''air_station'', [Some (203 / 2), Some 0, Some 0]),
                 (''hospitalizations_total'', [Some 1, Some 0, Some 1]),
                 (''hospitalizations_jp'', [Some 0, Some 0, Some 1])]\<rparr>"

definition visits_bad :: frame where
  "visits_bad = [(''admission_date'', ObjCol [Some ''2024-02-03'', Some ''unknown'']),
                 (''cid'', ObjCol [Some ''J18'', Some ''J45''])]"

definition air_blank :: frame where
  "air_blank = [(''timestamp'', ObjCol [Some ''2024-01-05'', Some ''2024-01-20'']),
                (''pm25'', NumCol [None, None])]"

definition air_header :: frame where
  "air_header = [(''timestamp'', ObjCol []), (''pm25'', ObjCol []), (''station'', ObjCol [])]"

definition air_header_clean :: frame where
  "air_header_clean = [(''timestamp'', DtCol []), (''pm25'', ObjCol []), (''station'', ObjCol [])]"

definition hosp_header :: frame where
  "hosp_header = [(''admission_date'', ObjCol []), (''cid'', ObjCol [])]"

definition hosp_header_clean :: frame where
  "hosp_header_clean = [(''admission_date'', DtCol []), (''cid'', ObjCol [])]"

section \<open>Lemmas\<close>

lemma setitem_present:
  "distinct (map fst df) \<Longrightarrow> name \<in> fst ` set df \<Longrightarrow>
   setitem df name c = map (\<lambda>(m, d). (m, if m = name then c else d)) df"
proof (induction df)
  case Nil
  then show ?case by simp
next
  case (Cons a df)
  obtain m d where a: "a = (m, d)" by (cases a)
  show ?case
  proof (cases "m = name")
    case True
    with Cons.prems a have "name \<notin> fst ` set df" by auto
    then have "map (\<lambda>(m, d). (m, if m = name then c else d)) df = df"
      by (induction df) auto
    with True a show ?thesis by simp
  next
    case False
    with Cons a show ?thesis by auto
  qed
qed

lemma map_of_absent_map_id:
  "name \<notin> fst ` set df \<Longrightarrow> map (\<lambda>(m, d). (m, if m = name then f d else d)) df = df"
  by (induction df) auto

lemma fill_col_map:
  assumes "distinct (map fst df)"
  shows "fill_col avg df col = map (\<lambda>(m, d). (m, if m = col then impute avg d else d)) df"
proof (cases "map_of df col")
  case None
  then have "col \<notin> fst ` set df" by (simp add: map_of_eq_None_iff)
  then show ?thesis using None by (simp add: fill_col_def map_of_absent_map_id)
next
  case (Some c)
  then have mem: "(col, c) \<in> set df" by (rule map_of_SomeD)
  then have dom: "col \<in> fst ` set df" by force
  have uniq: "\<And>d. (col, d) \<in> set df \<Longrightarrow> d = c"
    using assms mem by (meson eq_key_imp_eq_value)
  have "map (\<lambda>(m, d). (m, if m = col then impute avg d else d)) df
      = map (\<lambda>(m, d). (m, if m = col then impute avg c else d)) df"
    by (rule map_cong) (auto dest: uniq)
  also have "\<dots> = setitem df col (impute avg c)"
    using setitem_present [OF assms dom] by simp
  finally have eq: "map (\<lambda>(m, d). (m, if m = col then impute avg d else d)) df = setitem df col (impute avg c)" .
  show ?thesis
  proof (cases c)
    case (NumCol xs)
    with Some eq show ?thesis by (simp add: fill_col_def)
  next
    case (ObjCol xs)
    have "map (\<lambda>(m, d). (m, if m = col then impute avg d else d)) df = map (\<lambda>(m, d). (m, d)) df"
      by (rule map_cong) (use ObjCol in \<open>auto dest!: uniq\<close>)
    with Some ObjCol show ?thesis by (simp add: fill_col_def)
  next
    case (DtCol xs)
    have "map (\<lambda>(m, d). (m, if m = col then impute avg d else d)) df = map (\<lambda>(m, d). (m, d)) df"
      by (rule map_cong) (use DtCol in \<open>auto dest!: uniq\<close>)
    with Some DtCol show ?thesis by (simp add: fill_col_def)
  qed
qed

lemma fold_fill_col:
  "distinct (map fst df) \<Longrightarrow> distinct cs \<Longrightarrow>
   fold (\<lambda>col d. fill_col avg d col) cs df = map (\<lambda>(m, d). (m, if m \<in> set cs then impute avg d else d)) df"
proof (induction cs arbitrary: df)
  case Nil
  then show ?case by simp
next
  case (Cons c cs)
  let ?df = "map (\<lambda>(m, d). (m, if m = c then impute avg d else d)) df"
  have names: "map fst ?df = map fst df" by (induction df) auto
  have "fold (\<lambda>col d. fill_col avg d col) (c # cs) df = fold (\<lambda>col d. fill_col avg d col) cs ?df"
    using Cons.prems by (simp add: fill_col_map)
  also have "\<dots> = map (\<lambda>(m, d). (m, if m \<in> set cs then impute avg d else d)) ?df"
  proof (rule Cons.IH)
    show "distinct (map fst ?df)" unfolding names using Cons.prems(1) .
    show "distinct cs" using Cons.prems(2) by simp
  qed
  also have "\<dots> = map (\<lambda>(m, d). (m, if m \<in> set (c # cs) then impute avg d else d)) df"
    using Cons.prems by (auto simp: comp_def split_def)
  finally show ?case .
qed

lemma impute_non_number: "\<not> is_number c \<Longrightarrow> impute avg c = c"
  by (cases c) auto

lemma fold_fill_all:
  assumes "distinct (map fst df)"
  shows "fold (\<lambda>col d. fill_col avg d col) (select_number df) df = map (\<lambda>(m, d). (m, impute avg d)) df"
proof -
  have d: "distinct (select_number df)"
    unfolding select_number_def using assms by (rule distinct_map_filter)
  have "fold (\<lambda>col d. fill_col avg d col) (select_number df) df
      = map (\<lambda>(m, d). (m, if m \<in> set (select_number df) then impute avg d else d)) df"
    using assms d by (rule fold_fill_col)
  also have "\<dots> = map (\<lambda>(m, d). (m, impute avg d)) df"
  proof (rule map_cong[OF refl])
    fix x assume x: "x \<in> set df"
    obtain m d where md: "x = (m, d)" by (cases x)
    show "(case x of (m, d) \<Rightarrow> (m, if m \<in> set (select_number df) then impute avg d else d))
        = (case x of (m, d) \<Rightarrow> (m, impute avg d))"
    proof (cases "is_number d")
      case True
      with x md have "m \<in> set (select_number df)" by (force simp: select_number_def)
      with md show ?thesis by simp
    next
      case False
      with md show ?thesis by (simp add: impute_non_number)
    qed
  qed
  finally show ?thesis .
qed

lemma fold_heap_cell:
  "r < length h \<Longrightarrow>
   fold (\<lambda>col hp. hp[r := f (hp ! r) col]) cs h = h[r := fold (\<lambda>col d. f d col) cs (h ! r)]"
proof (induction cs arbitrary: h)
  case Nil
  then show ?case by simp
next
  case (Cons c cs)
  then show ?case by simp
qed

lemma names_map_cols: "map fst (map (\<lambda>(m, d). (m, f m d)) df) = map fst df"
  by (induction df) auto

lemma text_cols_converted:
  "drop_label (select_non_number (map (\<lambda>(m, d). (m, if m = date_col then DtCol ts else d)) df))
     date_col = text_cols df date_col"
  unfolding drop_label_def select_non_number_def text_cols_def
  by (induction df) auto

lemma clean_data_result:
  assumes r: "r < length h" and dist: "distinct (map fst (h ! r))"
    and c: "map_of (h ! r) date_col = Some c" and t: "to_datetime parse c = Inr ts"
  shows "clean_data avg parse h r date_col =
         Inr (h[r := imputed avg (h ! r) date_col ts]
                @ [dropna (imputed avg (h ! r) date_col ts) (text_cols (h ! r) date_col)], length h)"
proof -
  let ?df = "h ! r"
  let ?d1 = "map (\<lambda>(m, d). (m, if m = date_col then DtCol ts else d)) ?df"
  have dom: "date_col \<in> fst ` set ?df" using c by (force dest: map_of_SomeD)
  have s1: "setitem ?df date_col (DtCol ts) = ?d1"
    using dist dom by (rule setitem_present)
  have n1: "map fst ?d1 = map fst ?df" by (rule names_map_cols)
  have d1: "distinct (map fst ?d1)" unfolding n1 by (rule dist)
  have f1: "fold (\<lambda>col d. fill_col avg d col) (select_number ?d1) ?d1 = imputed avg ?df date_col ts"
    unfolding fold_fill_all [OF d1] imputed_def by (auto simp: split_def)
  have o1: "drop_label (select_non_number ?d1) date_col = text_cols ?df date_col"
    by (rule text_cols_converted)
  let ?h1 = "h[r := ?d1]"
  have r1: "r < length ?h1" using r by simp
  have h2: "fold (\<lambda>col hp. hp[r := fill_col avg (hp ! r) col]) (select_number ?d1) ?h1
          = h[r := imputed avg ?df date_col ts]"
    unfolding fold_heap_cell [OF r1] using r f1 by simp
  show ?thesis
    unfolding clean_data_def using c t r
    by (simp add: s1 Let_def h2 o1 alloc_def)
qed

lemma convert_from_Inl:
  "convert_from parse i xs = Inl e \<Longrightarrow>
   \<exists>j v. e = ParseError (i + j) v \<and> j < length xs \<and> xs ! j = Some v \<and> parse v = None
        \<and> (\<forall>k<j. \<forall>w. xs ! k = Some w \<longrightarrow> parse w \<noteq> None)"
proof (induction parse i xs rule: convert_from.induct)
  case (1 parse i)
  then show ?case by simp
next
  case (2 parse i xs)
  from "2.prems" have "convert_from parse (Suc i) xs = Inl e"
    by (simp split: sum.splits)
  from "2.IH" [OF this] obtain j v where
    j: "e = ParseError (Suc i + j) v" "j < length xs" "xs ! j = Some v" "parse v = None"
       "\<forall>k<j. \<forall>w. xs ! k = Some w \<longrightarrow> parse w \<noteq> None"
    by blast
  have "\<forall>k<Suc j. \<forall>w. (None # xs) ! k = Some w \<longrightarrow> parse w \<noteq> None"
    using j(5) by (auto simp: nth_Cons split: nat.splits)
  with j show ?case
    by (intro exI [of _ "Suc j"] exI [of _ v]) simp
next
  case (3 parse i v xs)
  show ?case
  proof (cases "parse v")
    case None
    with "3.prems" have "e = ParseError i v" by simp
    with None show ?thesis by (intro exI [of _ 0] exI [of _ v]) simp
  next
    case (Some t)
    with "3.prems" have "convert_from parse (Suc i) xs = Inl e"
      by (simp split: sum.splits)
    from "3.IH" [OF Some this] obtain j w where
      j: "e = ParseError (Suc i + j) w" "j < length xs" "xs ! j = Some w" "parse w = None"
         "\<forall>k<j. \<forall>u. xs ! k = Some u \<longrightarrow> parse u \<noteq> None"
      by blast
    have "\<forall>k<Suc j. \<forall>u. (Some v # xs) ! k = Some u \<longrightarrow> parse u \<noteq> None"
      using j(5) Some by (auto simp: nth_Cons split: nat.splits)
    with j show ?thesis
      by (intro exI [of _ "Suc j"] exI [of _ w]) simp
  qed
qed

lemma convert_from_Inr:
  "convert_from parse i xs = Inr ts \<Longrightarrow>
   length ts = length xs \<and> (\<forall>v. Some v \<in> set xs \<longrightarrow> parse v \<noteq> None)
   \<and> (\<forall>k<length xs. (ts ! k = None) = (xs ! k = None))"
proof (induction parse i xs arbitrary: ts rule: convert_from.induct)
  case (1 parse i)
  then show ?case by auto
next
  case (2 parse i xs)
  from "2.prems" obtain ts' where ts': "convert_from parse (Suc i) xs = Inr ts'" "ts = None # ts'"
    by (auto split: sum.splits)
  from "2.IH" [OF ts'(1)] ts'(2) show ?case
    by (auto simp: nth_Cons split: nat.splits)
next
  case (3 parse i v xs)
  from "3.prems" obtain t ts' where
    t: "parse v = Some t" "convert_from parse (Suc i) xs = Inr ts'" "ts = Some t # ts'"
    by (auto split: option.splits sum.splits)
  from "3.IH" [OF t(1) t(2)] t(1) t(3) show ?case
    by (auto simp: nth_Cons split: nat.splits)
qed

lemma to_datetime_length: "to_datetime parse c = Inr ts \<Longrightarrow> length ts = col_len c"
  by (cases c) (auto dest: convert_from_Inr)

lemma clean_data_InrD:
  "clean_data avg parse h r date_col = Inr res \<Longrightarrow>
   \<exists>c ts. map_of (h ! r) date_col = Some c \<and> to_datetime parse c = Inr ts"
  unfolding clean_data_def by (auto split: option.splits sum.splits)

lemma clean_data_InlD:
  "clean_data avg parse h r date_col = Inl e \<Longrightarrow> map_of (h ! r) date_col = Some c \<Longrightarrow>
   to_datetime parse c = Inl e"
  unfolding clean_data_def by (auto split: option.splits sum.splits simp: Let_def)

lemma map_of_map_cols:
  "map_of (map (\<lambda>(m, d). (m, f m d)) df) n = map_option (f n) (map_of df n)"
  by (induction df) auto

lemma map_of_imputed:
  "map_of (imputed avg df date_col ts) n =
   map_option (\<lambda>d. if n = date_col then DtCol ts else impute avg d) (map_of df n)"
  unfolding imputed_def by (rule map_of_map_cols)

lemma map_of_dropna:
  "map_of (dropna df names) n = map_option (take_rows (complete_rows df names)) (map_of df n)"
  unfolding dropna_def by (rule map_of_map_cols)



lemma length_series_fillna: "length (series_fillna v xs) = length xs"
  by (cases v) (simp_all add: series_fillna_def)

lemma col_len_impute: "col_len (impute avg c) = col_len c"
  by (cases c) (simp_all add: length_series_fillna)

lemma col_len_take_rows: "col_len (take_rows keep c) = length keep"
  by (cases c) simp_all

lemma nrows_imputed:
  assumes "wf_frame df" "map_of df date_col = Some c" "length ts = col_len c"
  shows "nrows (imputed avg df date_col ts) = nrows df"
proof (cases df)
  case Nil
  then show ?thesis by (simp add: imputed_def)
next
  case (Cons a rest)
  obtain m d where a: "a = (m, d)" by (cases a)
  have "(date_col, c) \<in> set df" using assms(2) by (rule map_of_SomeD)
  with assms(1) have "col_len c = nrows df" by (auto simp: wf_frame_def)
  with Cons a assms(3) show ?thesis
    by (simp add: imputed_def nrows_def col_len_impute)
qed



lemma set_complete_rows: "i \<in> set (complete_rows df names) \<Longrightarrow> i < nrows df"
  unfolding complete_rows_def by simp

lemma nrows_dropna: "df \<noteq> [] \<Longrightarrow> nrows (dropna df names) = length (complete_rows df names)"
  by (cases df) (auto simp: dropna_def nrows_def col_len_take_rows)


lemma clean_data_shape:
  assumes r: "r < length h" and wf: "wf_frame (h ! r)"
    and ok: "clean_data avg parse h r date_col = Inr (h', r')"
  shows "\<exists>c ts. map_of (h ! r) date_col = Some c \<and> to_datetime parse c = Inr ts
           \<and> h' = h[r := imputed avg (h ! r) date_col ts]
                    @ [dropna (imputed avg (h ! r) date_col ts) (text_cols (h ! r) date_col)]
           \<and> r' = length h"
proof -
  from clean_data_InrD [OF ok] obtain c ts where
    c: "map_of (h ! r) date_col = Some c" and t: "to_datetime parse c = Inr ts" by blast
  have dist: "distinct (map fst (h ! r))" using wf by (simp add: wf_frame_def)
  from clean_data_result [OF r dist c t] ok c t show ?thesis by auto
qed





lemma present_empty_iff: "present xs = [] \<longleftrightarrow> (\<forall>x \<in> set xs. x = None)"
  unfolding present_def by (induction xs) auto


lemma series_fillna_no_None: "None \<notin> set xs \<Longrightarrow> series_fillna v xs = xs"
proof (cases v)
  case None
  then show ?thesis by (simp add: series_fillna_def)
next
  case (Some m)
  assume "None \<notin> set xs"
  then have "map (\<lambda>x. case x of None \<Rightarrow> Some m | Some y \<Rightarrow> Some y) xs = xs"
  proof (induction xs)
    case Nil
    then show ?case by simp
  next
    case (Cons a xs)
    then show ?case by (cases a) auto
  qed
  with Some show ?thesis by (simp add: series_fillna_def)
qed

lemma series_mean_None_iff: "series_mean avg xs = None \<longleftrightarrow> (\<forall>x \<in> set xs. x = None)"
  unfolding series_mean_def by (simp add: Let_def present_empty_iff)

lemma impute_fixed_iff_aux:
  "(None \<notin> set xs \<or> (\<forall>x \<in> set xs. x = None)) \<Longrightarrow> impute avg (NumCol xs) = NumCol xs"
proof (erule disjE)
  assume "None \<notin> set xs"
  then show ?thesis by (simp add: series_fillna_no_None)
next
  assume "\<forall>x \<in> set xs. x = None"
  then have "series_mean avg xs = None" by (simp add: series_mean_None_iff)
  then show ?thesis by (simp add: series_fillna_def)
qed






lemma heap_after_arg:
  "r < length h \<Longrightarrow> (h[r := F] @ [R]) ! r = F"
  by (simp add: nth_append)

lemma heap_after_new: "(h[r := F] @ [R]) ! length h = R"
  by (simp add: nth_append)

lemma heap_after_other:
  "q < length h \<Longrightarrow> q \<noteq> r \<Longrightarrow> (h[r := F] @ [R]) ! q = h ! q"
  by (simp add: nth_append)









lemma cell_at_map: "cell_at ix (map g ix) k = only_on ix g k"
  unfolding cell_at_def only_on_def by (simp add: map_of_zip_map)

lemma reindex_tab:
  "reindex (tab ix gs) ix' = map (\<lambda>(n, g). (n, map (only_on ix g) ix')) gs"
  unfolding reindex_def tab_def
  by (simp add: split_def comp_def cell_at_map cong: map_cong)

lemma names_tab: "map fst (columns (tab ix gs)) = map fst gs"
  unfolding tab_def by (simp add: split_def comp_def)

lemma join_outer_tab:
  assumes "set (map fst gs) \<inter> set (map fst gs') = {}"
  shows "join_outer (tab ix gs) (tab ix' gs') =
         Inr (tab (sort (remdups (ix @ ix')))
                  (map (\<lambda>(n, g). (n, only_on ix g)) gs @ map (\<lambda>(n, g). (n, only_on ix' g)) gs'))"
proof -
  have "\<not> (\<exists>n \<in> set (map fst (columns (tab ix gs))). n \<in> set (map fst (columns (tab ix' gs'))))"
    using assms unfolding names_tab by blast
  then show ?thesis
    unfolding join_outer_def reindex_tab Let_def
    by (simp add: tab_def split_def comp_def)
qed

lemma fillna_zero_tab:
  "fillna_zero (tab ix gs) = tab ix (map (\<lambda>(n, g). (n, \<lambda>k. zero_fill (g k))) gs)"
  unfolding fillna_zero_def tab_def zero_fill_def
  by (simp add: split_def comp_def)

lemma add_prefix_tab:
  "add_prefix p (tab ix gs) = tab ix (map (\<lambda>(n, g). (p @ n, g)) gs)"
  unfolding add_prefix_def tab_def by (simp add: split_def comp_def)

lemma to_frame_tab: "to_frame (ix, map g ix) name = tab ix [(name, g)]"
  unfolding to_frame_def tab_def by simp


lemma set_index_Inr:
  "set_index df name = Inr idf \<Longrightarrow>
   \<exists>c. map_of df name = Some c \<and> idf = (c, filter (\<lambda>(m, d). m \<noteq> name) df)"
  unfolding set_index_def by (auto split: option.splits)

lemma resample_Inr:
  "resample c = Inr ix \<longleftrightarrow> c = DtCol ix \<and> (ix = [] \<or> present ix \<noteq> [])"
  unfolding resample_def by (cases c) auto

lemma month_bins_Nil: "month_bins [] = []"
  by (simp add: month_bins_def row_months_def present_def)

lemma resample_mean_tab:
  assumes "ix = [] \<or> present ix \<noteq> []"
    and "ix = [] \<or> (\<forall>(n, c) \<in> set df. is_number c)"
  shows "resample_mean avg (DtCol ix, df) = Inr (tab (month_bins ix) (bucket_means avg ix df))"
proof (cases "ix = []")
  case True
  then show ?thesis
    unfolding resample_mean_def
    by (simp add: resample_def tab_def bucket_means_def month_bins_Nil split_def comp_def)
next
  case False
  with assms have p: "present ix \<noteq> []" and num: "\<forall>(n, c) \<in> set df. is_number c" by auto
  from False p have r: "resample (DtCol ix) = Inr ix" by (simp add: resample_Inr)
  from num have "\<not> (\<exists>(n, c) \<in> set df. \<not> is_number c)" by auto
  with False r show ?thesis
    unfolding resample_mean_def
    by (simp add: tab_def bucket_means_def split_def comp_def)
qed

lemma resample_mean_Inr:
  assumes "resample_mean avg (c, df) = Inr t"
  shows "\<exists>ix. c = DtCol ix \<and> (ix = [] \<or> present ix \<noteq> [])
           \<and> (ix = [] \<or> (\<forall>(n, c) \<in> set df. is_number c))
           \<and> t = tab (month_bins ix) (bucket_means avg ix df)"
proof -
  from assms obtain ix where r: "resample c = Inr ix"
    unfolding resample_mean_def by (auto split: sum.splits)
  then have c: "c = DtCol ix" and p: "ix = [] \<or> present ix \<noteq> []"
    by (simp_all add: resample_Inr)
  have num: "ix = [] \<or> (\<forall>(n, c) \<in> set df. is_number c)"
    using assms r unfolding resample_mean_def by (auto split: if_splits)
  from resample_mean_tab [OF p num, of avg] assms c show ?thesis
    using p num by auto
qed

lemma resample_size_ok:
  assumes "ix = [] \<or> present ix \<noteq> []"
  shows "resample_size (DtCol ix, df) =
         Inr (month_bins ix, map (\<lambda>k. Some (of_nat (length (bucket ix ix k)))) (month_bins ix))"
proof -
  from assms have "resample (DtCol ix) = Inr ix" by (simp add: resample_Inr)
  then show ?thesis unfolding resample_size_def by simp
qed

lemma resample_size_Inr:
  assumes "resample_size (c, df) = Inr s"
  shows "\<exists>ix. c = DtCol ix \<and> (ix = [] \<or> present ix \<noteq> [])
      \<and> s = (month_bins ix, map (\<lambda>k. Some (of_nat (length (bucket ix ix k)))) (month_bins ix))"
proof -
  from assms obtain ix where r: "resample c = Inr ix"
    unfolding resample_size_def by (auto split: sum.splits)
  then have c: "c = DtCol ix" and p: "ix = [] \<or> present ix \<noteq> []"
    by (simp_all add: resample_Inr)
  from assms r have "s = (month_bins ix, map (\<lambda>k. Some (of_nat (length (bucket ix ix k)))) (month_bins ix))"
    unfolding resample_size_def by simp
  with c p show ?thesis by blast
qed

lemma set_index_ok:
  "map_of df name = Some c \<Longrightarrow> set_index df name = Inr (c, filter (\<lambda>(m, d). m \<noteq> name) df)"
  unfolding set_index_def by simp

lemma aggregate_monthly_ok:
  assumes air: "map_of air ''timestamp'' = Some (DtCol ai)"
    and hosp: "map_of hosp ''admission_date'' = Some (DtCol hi)"
    and jp: "map_of jp ''admission_date'' = Some (DtCol ji)"
    and pa: "ai = [] \<or> present ai \<noteq> []"
    and ph: "hi = [] \<or> present hi \<noteq> []"
    and pj: "ji = [] \<or> present ji \<noteq> []"
    and num: "ai = [] \<or> (\<forall>(n, c) \<in> set air. n \<noteq> ''timestamp'' \<longrightarrow> is_number c)"
  shows "aggregate_monthly avg air hosp jp =
         Inr (tab (sort (remdups (sort (remdups (month_bins ai @ month_bins hi)) @ month_bins ji)))
               (map (\<lambda>(n, g). (''air_'' @ n,
                        \<lambda>k. zero_fill (only_on (sort (remdups (month_bins ai @ month_bins hi)))
                               (only_on (month_bins ai) g) k)))
                    (bucket_means avg ai (filter (\<lambda>(m, d). m \<noteq> ''timestamp'') air))
                @ [(''hospitalizations_total'',
                      \<lambda>k. zero_fill (only_on (sort (remdups (month_bins ai @ month_bins hi)))
                             (only_on (month_bins hi) (\<lambda>k. Some (of_nat (length (bucket hi hi k))))) k)),
                   (''hospitalizations_jp'',
                      \<lambda>k. zero_fill (only_on (month_bins ji)
                             (\<lambda>k. Some (of_nat (length (bucket ji ji k)))) k))]))"
proof -
  let ?air' = "filter (\<lambda>(m, d). m \<noteq> ''timestamp'') air"
  let ?A = "month_bins ai" and ?H = "month_bins hi" and ?J = "month_bins ji"
  let ?bm = "bucket_means avg ai ?air'"
  let ?gs = "map (\<lambda>(n, g). (''air_'' @ n, g)) ?bm"
  let ?gh = "\<lambda>k. Some (of_nat (length (bucket hi hi k))) :: rat option"
  let ?gj = "\<lambda>k. Some (of_nat (length (bucket ji ji k))) :: rat option"
  let ?IX1 = "sort (remdups (?A @ ?H))"
  have num': "ai = [] \<or> (\<forall>(n, c) \<in> set ?air'. is_number c)"
    using num by auto
  note am = resample_mean_tab [OF pa num', of avg]
  note hs = resample_size_ok [OF ph]
  note js = resample_size_ok [OF pj]
  have left: "add_prefix ''air_'' (tab ?A ?bm) = tab ?A ?gs"
    by (rule add_prefix_tab)
  have dis1: "set (map fst ?gs) \<inter> set (map fst [(''hospitalizations_total'', ?gh)]) = {}"
    by (auto simp: split_def)
  let ?gs1 = "map (\<lambda>(n, g). (n, only_on ?A g)) ?gs
              @ map (\<lambda>(n, g). (n, only_on ?H g)) [(''hospitalizations_total'', ?gh)]"
  have dis2: "set (map fst ?gs1) \<inter> set (map fst [(''hospitalizations_jp'', ?gj)]) = {}"
    by (auto simp: split_def)
  note j1 = join_outer_tab [OF dis1, of ?A ?H]
  note j2 = join_outer_tab [OF dis2, of ?IX1 ?J]
  have "aggregate_monthly avg air hosp jp =
        Inr (fillna_zero (tab (sort (remdups (?IX1 @ ?J)))
               (map (\<lambda>(n, g). (n, only_on ?IX1 g)) ?gs1
                @ map (\<lambda>(n, g). (n, only_on ?J g)) [(''hospitalizations_jp'', ?gj)])))"
    unfolding aggregate_monthly_def set_index_ok [OF air] set_index_ok [OF hosp] set_index_ok [OF jp]
    by (simp only: sum.case am hs js left to_frame_tab j1 j2)
  also have "\<dots> = Inr (tab (sort (remdups (?IX1 @ ?J)))
               (map (\<lambda>(n, g). (''air_'' @ n, \<lambda>k. zero_fill (only_on ?IX1 (only_on ?A g) k))) ?bm
                @ [(''hospitalizations_total'', \<lambda>k. zero_fill (only_on ?IX1 (only_on ?H ?gh) k)),
                   (''hospitalizations_jp'', \<lambda>k. zero_fill (only_on ?J ?gj k))]))"
    unfolding fillna_zero_tab by (simp add: split_def comp_def)
  finally show ?thesis .
qed

lemma aggregate_monthly_InrD:
  assumes ok: "aggregate_monthly avg air hosp jp = Inr t"
  shows "\<exists>ai hi ji.
           map_of air ''timestamp'' = Some (DtCol ai)
         \<and> map_of hosp ''admission_date'' = Some (DtCol hi)
         \<and> map_of jp ''admission_date'' = Some (DtCol ji)
         \<and> (ai = [] \<or> present ai \<noteq> []) \<and> (hi = [] \<or> present hi \<noteq> [])
         \<and> (ji = [] \<or> present ji \<noteq> [])
         \<and> (ai = [] \<or> (\<forall>(n, c) \<in> set air. n \<noteq> ''timestamp'' \<longrightarrow> is_number c))"
proof -
  from ok obtain a h j am hs js where
    a: "set_index air ''timestamp'' = Inr a"
    and h: "set_index hosp ''admission_date'' = Inr h"
    and j: "set_index jp ''admission_date'' = Inr j"
    and am: "resample_mean avg a = Inr am"
    and hs: "resample_size h = Inr hs"
    and js: "resample_size j = Inr js"
    unfolding aggregate_monthly_def by (auto split: sum.splits)
  let ?air' = "filter (\<lambda>(m, d). m \<noteq> ''timestamp'') air"
  from set_index_Inr [OF a] obtain ca where ca: "map_of air ''timestamp'' = Some ca" "a = (ca, ?air')"
    by blast
  from set_index_Inr [OF h] obtain ch hosp' where ch: "map_of hosp ''admission_date'' = Some ch" "h = (ch, hosp')"
    by blast
  from set_index_Inr [OF j] obtain cj jp' where cj: "map_of jp ''admission_date'' = Some cj" "j = (cj, jp')"
    by blast
  from resample_mean_Inr [OF am [unfolded ca(2)]] obtain ai where
    ai: "ca = DtCol ai" "ai = [] \<or> present ai \<noteq> []"
        "ai = [] \<or> (\<forall>(n, c) \<in> set ?air'. is_number c)"
    by blast
  from resample_size_Inr [OF hs [unfolded ch(2)]] obtain hi where
    hi: "ch = DtCol hi" "hi = [] \<or> present hi \<noteq> []" by blast
  from resample_size_Inr [OF js [unfolded cj(2)]] obtain ji where
    ji: "cj = DtCol ji" "ji = [] \<or> present ji \<noteq> []" by blast
  from ai(3) have "ai = [] \<or> (\<forall>(n, c) \<in> set air. n \<noteq> ''timestamp'' \<longrightarrow> is_number c)"
    by auto
  with ca(1) ch(1) cj(1) ai(1,2) hi ji show ?thesis by blast
qed

lemma aggregate_monthly_result:
  assumes ok: "aggregate_monthly avg air hosp jp = Inr t"
  shows "\<exists>ai hi ji.
           map_of air ''timestamp'' = Some (DtCol ai)
         \<and> map_of hosp ''admission_date'' = Some (DtCol hi)
         \<and> map_of jp ''admission_date'' = Some (DtCol ji)
         \<and> (ai = [] \<or> (\<forall>(n, c) \<in> set air. n \<noteq> ''timestamp'' \<longrightarrow> is_number c))
         \<and> t = tab (sort (remdups (sort (remdups (month_bins ai @ month_bins hi)) @ month_bins ji)))
               (map (\<lambda>(n, g). (''air_'' @ n,
                        \<lambda>k. zero_fill (only_on (sort (remdups (month_bins ai @ month_bins hi)))
                               (only_on (month_bins ai) g) k)))
                    (bucket_means avg ai (filter (\<lambda>(m, d). m \<noteq> ''timestamp'') air))
                @ [(''hospitalizations_total'',
                      \<lambda>k. zero_fill (only_on (sort (remdups (month_bins ai @ month_bins hi)))
                             (only_on (month_bins hi) (\<lambda>k. Some (of_nat (length (bucket hi hi k))))) k)),
                   (''hospitalizations_jp'',
                      \<lambda>k. zero_fill (only_on (month_bins ji)
                             (\<lambda>k. Some (of_nat (length (bucket ji ji k)))) k))])"
proof -
  from aggregate_monthly_InrD [OF ok] obtain ai hi ji where
    d: "map_of air ''timestamp'' = Some (DtCol ai)"
       "map_of hosp ''admission_date'' = Some (DtCol hi)"
       "map_of jp ''admission_date'' = Some (DtCol ji)"
    and p: "ai = [] \<or> present ai \<noteq> []" "hi = [] \<or> present hi \<noteq> []" "ji = [] \<or> present ji \<noteq> []"
    and num: "ai = [] \<or> (\<forall>(n, c) \<in> set air. n \<noteq> ''timestamp'' \<longrightarrow> is_number c)"
    by blast
  from aggregate_monthly_ok [OF d p num, of avg] ok d num show ?thesis by auto
qed


lemma between_in_bins:
  assumes "a \<in> set (row_months ix)" "b \<in> set (row_months ix)" "a \<le> k" "k \<le> b"
  shows "k \<in> set (month_bins ix)"
proof -
  have ne: "row_months ix \<noteq> []" using assms(1) by auto
  have "Min (set (row_months ix)) \<le> a" using assms(1) by simp
  moreover have "b \<le> Max (set (row_months ix))" using assms(2) by simp
  ultimately show ?thesis
    using ne assms(3,4) unfolding month_bins_def Let_def by simp
qed

lemma bucket_row_month:
  assumes "x \<in> set (bucket ix xs k)"
  shows "k \<in> set (row_months ix)"
proof -
  from assms obtain t where t: "(t, x) \<in> set (zip ix xs)" "map_option month_key t = Some k"
    unfolding bucket_def by auto
  from t(2) obtain t' where t': "t = Some t'" "month_key t' = k" by (cases t) auto
  from t(1) have "t \<in> set ix" by (rule set_zip_leftD)
  with t' have "t' \<in> set (present ix)" unfolding present_def by force
  with t'(2) show ?thesis unfolding row_months_def by auto
qed

lemma bucket_empty: "k \<notin> set (row_months ix) \<Longrightarrow> bucket ix xs k = []"
  using bucket_row_month [of _ ix xs k] by (cases "bucket ix xs k") auto

lemma series_mean_Nil: "series_mean avg [] = None"
  by (simp add: series_mean_def present_def)


lemma bucket_means_no_rows:
  assumes "(n, g) \<in> set (bucket_means avg ix df)" "k \<notin> set (row_months ix)"
  shows "g k = None"
  using assms unfolding bucket_means_def
  by (auto simp: bucket_empty series_mean_Nil split: if_splits)

lemma zero_fill_no_rows_mean:
  assumes "(n, g) \<in> set (bucket_means avg ix df)" "k \<notin> set (row_months ix)"
  shows "zero_fill (only_on I (only_on A g) k) = Some 0"
  using bucket_means_no_rows [OF assms] by (simp add: only_on_def zero_fill_def)

lemma zero_fill_no_rows_size2:
  "k \<notin> set (row_months ix) \<Longrightarrow>
   zero_fill (only_on I (only_on H (\<lambda>k. Some (of_nat (length (bucket ix ix k))))) k) = Some 0"
  by (simp add: only_on_def zero_fill_def bucket_empty)

lemma zero_fill_no_rows_size:
  "k \<notin> set (row_months ix) \<Longrightarrow>
   zero_fill (only_on J (\<lambda>k. Some (of_nat (length (bucket ix ix k)))) k) = Some 0"
  by (simp add: only_on_def zero_fill_def bucket_empty)




lemma dates_DtCol: "map_of df name = Some (DtCol ix) \<Longrightarrow> dates df name = ix"
  by (simp add: dates_def)






lemma index_tab: "index (tab ix gs) = ix"
  by (simp add: tab_def)

lemma columns_tab: "columns (tab ix gs) = map (\<lambda>(n, g). (n, map g ix)) gs"
  by (simp add: tab_def)








section \<open>The claims\<close>




text \<open>
  Claim C2, amended. \<open>clean_data\<close> fails exactly when the date column holds a value that
  is not missing and cannot be parsed. The error then names the first such row and its
  value, and nothing is returned. A missing date is not an error.
\<close>

theorem clean_data_parse_error:
  assumes "map_of (h ! r) date_col = Some c"
  shows "case clean_data avg parse h r date_col of
           Inl e \<Rightarrow>
             \<exists>i v. e = ParseError i v \<and> i < length (scalars c) \<and> scalars c ! i = Some v
                 \<and> parse v = None
                 \<and> (\<forall>k<i. \<forall>w. scalars c ! k = Some w \<longrightarrow> parse w \<noteq> None)
         | Inr res \<Rightarrow> \<forall>v. Some v \<in> set (scalars c) \<longrightarrow> parse v \<noteq> None"
proof (cases "clean_data avg parse h r date_col")
  case (Inl e)
  from clean_data_InlD [OF Inl assms] have t: "to_datetime parse c = Inl e" .
  then have "convert_from parse 0 (scalars c) = Inl e" by (cases c) auto
  from convert_from_Inl [OF this] Inl show ?thesis by simp
next
  case (Inr res)
  from clean_data_InrD [OF Inr] assms obtain ts where t: "to_datetime parse c = Inr ts"
    by auto
  have "\<forall>v. Some v \<in> set (scalars c) \<longrightarrow> parse v \<noteq> None"
  proof (cases c)
    case (DtCol xs)
    then show ?thesis by simp
  next
    case (NumCol xs)
    with t have "convert_from parse 0 (scalars c) = Inr ts" by simp
    from convert_from_Inr [OF this] show ?thesis by blast
  next
    case (ObjCol xs)
    with t have "convert_from parse 0 (scalars c) = Inr ts" by simp
    from convert_from_Inr [OF this] show ?thesis by blast
  qed
  with Inr show ?thesis by simp
qed

theorem clean_data_parse_error_witness:
  "map_of ([visits_bad] ! 0) ''admission_date''
     = Some (ObjCol [Some ''2024-02-03'', Some ''unknown''])
   \<and> clean_data example_mean iso_date [visits_bad] 0 ''admission_date'' = Inl (ParseError 1 (Text ''unknown''))
   \<and> (\<exists>i v. ParseError 1 (Text ''unknown'') = ParseError i v
          \<and> i < length (scalars (ObjCol [Some ''2024-02-03'', Some ''unknown'']))
          \<and> scalars (ObjCol [Some ''2024-02-03'', Some ''unknown'']) ! i = Some v
          \<and> iso_date v = None
          \<and> (\<forall>k<i. \<forall>w. scalars (ObjCol [Some ''2024-02-03'', Some ''unknown'']) ! k = Some w
                 \<longrightarrow> iso_date w \<noteq> None))"
proof -
  have h: "map_of ([visits_bad] ! 0) ''admission_date''
     = Some (ObjCol [Some ''2024-02-03'', Some ''unknown''])" by code_simp
  have e: "clean_data example_mean iso_date [visits_bad] 0 ''admission_date'' = Inl (ParseError 1 (Text ''unknown''))"
    by code_simp
  from clean_data_parse_error [OF h, where avg = example_mean and parse = iso_date] have
    "\<exists>i v. ParseError 1 (Text ''unknown'') = ParseError i v
          \<and> i < length (scalars (ObjCol [Some ''2024-02-03'', Some ''unknown'']))
          \<and> scalars (ObjCol [Some ''2024-02-03'', Some ''unknown'']) ! i = Some v
          \<and> iso_date v = None
          \<and> (\<forall>k<i. \<forall>w. scalars (ObjCol [Some ''2024-02-03'', Some ''unknown'']) ! k = Some w
                 \<longrightarrow> iso_date w \<noteq> None)"
    unfolding e by (simp only: sum.case)
  with h e show ?thesis by (intro conjI)
qed

text \<open>
  C2 as stated fails: a row without a date value raises nothing. The date becomes NaT and
  the row is in the returned frame.
\<close>

theorem clean_data_missing_date_counterexample:
  "clean_data example_mean iso_date
     [[(''admission_date'', ObjCol [Some ''2024-02-03'', None]),
       (''cid'', ObjCol [Some ''J18'', Some ''J45''])]] 0 ''admission_date''
   = Inr ([[(''admission_date'', DtCol [Some (Timestamp 2024 2 3), None]),
            (''cid'', ObjCol [Some ''J18'', Some ''J45''])],
           [(''admission_date'', DtCol [Some (Timestamp 2024 2 3), None]),
            (''cid'', ObjCol [Some ''J18'', Some ''J45''])]], 1)"
  by code_simp

text \<open>
  Claim C3, amended. A numeric column with no value at all does not make \<open>clean_data\<close>
  fail: when the date column converts, the call returns, and in the returned frame the
  column is still missing in every row.
\<close>

theorem clean_data_all_missing_column:
  assumes r: "r < length h" and wf: "wf_frame (h ! r)"
    and c: "map_of (h ! r) date_col = Some c" and t: "to_datetime parse c = Inr ts"
    and n: "map_of (h ! r) n = Some (NumCol xs)" "n \<noteq> date_col"
    and empty: "present xs = []"
  shows "\<exists>h' r'. clean_data avg parse h r date_col = Inr (h', r')
           \<and> map_of (h' ! r') n = Some (NumCol (replicate (nrows (h' ! r')) None))"
proof -
  from empty have missing: "\<forall>x \<in> set xs. x = None" by (simp add: present_empty_iff)
  let ?F = "imputed avg (h ! r) date_col ts"
  let ?T = "text_cols (h ! r) date_col"
  let ?keep = "complete_rows ?F ?T"
  have dist: "distinct (map fst (h ! r))" using wf by (simp add: wf_frame_def)
  have res: "clean_data avg parse h r date_col = Inr (h[r := ?F] @ [dropna ?F ?T], length h)"
    by (rule clean_data_result [OF r dist c t])
  have len: "length ts = col_len c" by (rule to_datetime_length [OF t])
  have "(n, NumCol xs) \<in> set (h ! r)" using n(1) by (rule map_of_SomeD)
  with wf have lx: "length xs = nrows (h ! r)" by (auto simp: wf_frame_def)
  have ne: "?F \<noteq> []" using c by (auto simp: imputed_def)
  have imp: "impute avg (NumCol xs) = NumCol xs"
    using missing by (intro impute_fixed_iff_aux) simp
  have "\<forall>i \<in> set ?keep. xs ! i = None"
  proof
    fix i assume "i \<in> set ?keep"
    then have "i < nrows ?F" by (rule set_complete_rows)
    then have "i < length xs" by (simp add: nrows_imputed [OF wf c len] lx)
    with missing show "xs ! i = None" by simp
  qed
  then have "map ((!) xs) ?keep = replicate (length ?keep) None"
    by (simp add: map_replicate_const [symmetric] cong: map_cong)
  then have "map_of (dropna ?F ?T) n = Some (NumCol (replicate (nrows (dropna ?F ?T)) None))"
    using n imp by (simp add: map_of_dropna map_of_imputed nrows_dropna [OF ne])
  with res show ?thesis by (simp add: heap_after_new)
qed

theorem clean_data_all_missing_column_witness:
  "0 < length [air_blank] \<and> wf_frame ([air_blank] ! 0)
   \<and> map_of ([air_blank] ! 0) ''timestamp'' = Some (ObjCol [Some ''2024-01-05'', Some ''2024-01-20''])
   \<and> to_datetime iso_date (ObjCol [Some ''2024-01-05'', Some ''2024-01-20''])
       = Inr [Some (Timestamp 2024 1 5), Some (Timestamp 2024 1 20)]
   \<and> map_of ([air_blank] ! 0) ''pm25'' = Some (NumCol [None, None])
   \<and> ''pm25'' \<noteq> ''timestamp''
   \<and> present [None :: rat option, None] = []
   \<and> (\<exists>h' r'. clean_data example_mean iso_date [air_blank] 0 ''timestamp'' = Inr (h', r')
          \<and> map_of (h' ! r') ''pm25'' = Some (NumCol (replicate (nrows (h' ! r')) None)))"
proof -
  have h1: "0 < length [air_blank]" by simp
  have h2: "wf_frame ([air_blank] ! 0)" by code_simp
  have h3: "map_of ([air_blank] ! 0) ''timestamp''
          = Some (ObjCol [Some ''2024-01-05'', Some ''2024-01-20''])" by code_simp
  have h4: "to_datetime iso_date (ObjCol [Some ''2024-01-05'', Some ''2024-01-20''])
          = Inr [Some (Timestamp 2024 1 5), Some (Timestamp 2024 1 20)]" by code_simp
  have h5: "map_of ([air_blank] ! 0) ''pm25'' = Some (NumCol [None, None])" by code_simp
  have h6: "''pm25'' \<noteq> ''timestamp''" by simp
  have h7: "present [None :: rat option, None] = []" by code_simp
  note c = clean_data_all_missing_column [OF h1 h2 h3 h4 h5 h6 h7]
  from h1 h2 h3 h4 h5 h6 h7 c show ?thesis by (intro conjI)
qed

text \<open>
  C3 as stated fails: with \<open>pm25\<close> missing in every row, \<open>clean_data\<close> returns, and the
  column is as it was.
\<close>

theorem clean_data_all_missing_column_counterexample:
  "clean_data example_mean iso_date
     [[(''timestamp'', ObjCol [Some ''2024-01-05'', Some ''2024-01-20'']),
       (''pm25'', NumCol [None, None])]] 0 ''timestamp''
   = Inr ([[(''timestamp'', DtCol [Some (Timestamp 2024 1 5), Some (Timestamp 2024 1 20)]),
            (''pm25'', NumCol [None, None])],
           [(''timestamp'', DtCol [Some (Timestamp 2024 1 5), Some (Timestamp 2024 1 20)]),
            (''pm25'', NumCol [None, None])]], 1)"
  by code_simp







text \<open>
  Claim C6, amended. \<open>clean_data\<close> returns a new frame and leaves every other frame as
  it was, but it writes into the frame it was given: after the call that frame has its
  date column converted to timestamps and every other numeric column mean-filled. Its
  other columns and its number of rows are unchanged; rows are removed in the returned
  frame only.
\<close>

theorem clean_data_writes_argument:
  assumes r: "r < length h" and wf: "wf_frame (h ! r)"
    and ok: "clean_data avg parse h r date_col = Inr (h', r')"
  shows "r' = length h \<and> length h' = Suc (length h)
       \<and> (\<forall>q < length h. q \<noteq> r \<longrightarrow> h' ! q = h ! q)
       \<and> (\<exists>c ts. map_of (h ! r) date_col = Some c \<and> to_datetime parse c = Inr ts
                \<and> h' ! r = imputed avg (h ! r) date_col ts)
       \<and> nrows (h' ! r) = nrows (h ! r)"
proof -
  let ?df = "h ! r"
  from clean_data_shape [OF r wf ok] obtain c ts where
    c: "map_of ?df date_col = Some c" and t: "to_datetime parse c = Inr ts"
    and h': "h' = h[r := imputed avg ?df date_col ts]
                    @ [dropna (imputed avg ?df date_col ts) (text_cols ?df date_col)]"
    and r': "r' = length h"
    by blast
  have arg: "h' ! r = imputed avg ?df date_col ts" unfolding h' by (rule heap_after_arg [OF r])
  have len: "length ts = col_len c" by (rule to_datetime_length [OF t])
  have "nrows (h' ! r) = nrows ?df" unfolding arg by (rule nrows_imputed [OF wf c len])
  moreover have "\<forall>q < length h. q \<noteq> r \<longrightarrow> h' ! q = h ! q"
    unfolding h' by (simp add: heap_after_other)
  moreover have "length h' = Suc (length h)" unfolding h' by simp
  ultimately show ?thesis using r' c t arg by blast
qed

theorem clean_data_writes_argument_witness:
  "0 < length [visits] \<and> wf_frame ([visits] ! 0)
   \<and> clean_data example_mean iso_date [visits] 0 ''admission_date'' = Inr ([visits_filled, visits_clean], 1)
   \<and> (1 = length [visits] \<and> length [visits_filled, visits_clean] = Suc (length [visits])
       \<and> (\<exists>c ts. map_of ([visits] ! 0) ''admission_date'' = Some c
                \<and> to_datetime iso_date c = Inr ts
                \<and> [visits_filled, visits_clean] ! 0 = imputed example_mean ([visits] ! 0) ''admission_date'' ts)
       \<and> nrows ([visits_filled, visits_clean] ! 0) = nrows ([visits] ! 0))"
proof -
  have h1: "0 < length [visits]" by simp
  have h2: "wf_frame ([visits] ! 0)" by code_simp
  have h3: "clean_data example_mean iso_date [visits] 0 ''admission_date'' = Inr ([visits_filled, visits_clean], 1)"
    by code_simp
  note c = clean_data_writes_argument [OF h1 h2 h3]
  from h1 h2 h3 c show ?thesis by blast
qed

text \<open>
  C6 as stated fails: after the call the frame the caller passed holds timestamps and the
  filled \<open>pm25\<close>, not what it held before.
\<close>

theorem clean_data_writes_argument_counterexample:
  "clean_data example_mean iso_date
     [[(''timestamp'', ObjCol [Some ''2024-01-05'', Some ''2024-01-20'']),
       (''pm25'', NumCol [Some 10, None])]] 0 ''timestamp''
   = Inr ([[(''timestamp'', DtCol [Some (Timestamp 2024 1 5), Some (Timestamp 2024 1 20)]),
            (''pm25'', NumCol [Some 10, Some 10])],
           [(''timestamp'', DtCol [Some (Timestamp 2024 1 5), Some (Timestamp 2024 1 20)]),
            (''pm25'', NumCol [Some 10, Some 10])]], 1)
   \<and> [[(''timestamp'', DtCol [Some (Timestamp 2024 1 5), Some (Timestamp 2024 1 20)]),
         (''pm25'', NumCol [Some 10, Some 10])],
        [(''timestamp'', DtCol [Some (Timestamp 2024 1 5), Some (Timestamp 2024 1 20)]),
         (''pm25'', NumCol [Some 10, Some 10])]] ! 0
     \<noteq> [(''timestamp'', ObjCol [Some ''2024-01-05'', Some ''2024-01-20'']),
         (''pm25'', NumCol [Some 10, None])]"
  by code_simp



text \<open>
  Claim C8. When the three inputs have no row, the date column of each being an empty
  datetime column as \<open>clean_data\<close> leaves it, \<open>aggregate_monthly\<close> raises nothing and
  returns the table with no row and the headers \<open>air_\<close> followed by each column of the
  air input other than its date, text columns too, then \<open>hospitalizations_total\<close> and
  \<open>hospitalizations_jp\<close>. The example starts from the frames that a file with a header
  line and no record gives.
\<close>

theorem aggregate_monthly_empty:
  assumes air: "map_of air ''timestamp'' = Some (DtCol [])"
    and hosp: "map_of hosp ''admission_date'' = Some (DtCol [])"
    and jp: "map_of jp ''admission_date'' = Some (DtCol [])"
  shows "aggregate_monthly avg air hosp jp =
         Inr \<lparr>index = [],
              columns = map (\<lambda>(n, c). (''air_'' @ n, []))
                            (filter (\<lambda>(m, d). m \<noteq> ''timestamp'') air)
                        @ [(''hospitalizations_total'', []), (''hospitalizations_jp'', [])]\<rparr>"
proof -
  have e: "([] :: timestamp option list) = [] \<or> present ([] :: timestamp option list) \<noteq> []"
    by simp
  have n: "([] :: timestamp option list) = []
      \<or> (\<forall>(n, c) \<in> set air. n \<noteq> ''timestamp'' \<longrightarrow> is_number c)"
    by simp
  show ?thesis
    unfolding aggregate_monthly_ok [OF air hosp jp e e e n]
    by (simp add: month_bins_Nil tab_def bucket_means_def split_def comp_def)
qed

theorem aggregate_monthly_empty_witness:
  "clean_data example_mean iso_date [air_header] 0 ''timestamp''
     = Inr ([air_header_clean, air_header_clean], 1)
   \<and> clean_data example_mean iso_date [hosp_header] 0 ''admission_date''
     = Inr ([hosp_header_clean, hosp_header_clean], 1)
   \<and> map_of air_header_clean ''timestamp'' = Some (DtCol [])
   \<and> map_of hosp_header_clean ''admission_date'' = Some (DtCol [])
   \<and> aggregate_monthly example_mean air_header_clean hosp_header_clean hosp_header_clean =
       Inr \<lparr>index = [],
            columns = map (\<lambda>(n, c). (''air_'' @ n, []))
                          (filter (\<lambda>(m, d). m \<noteq> ''timestamp'') air_header_clean)
                      @ [(''hospitalizations_total'', []), (''hospitalizations_jp'', [])]\<rparr>
   \<and> map (\<lambda>(n, c). (''air_'' @ n, [] :: rat option list))
          (filter (\<lambda>(m, d). m \<noteq> ''timestamp'') air_header_clean)
     = [(''air_pm25'', []), (''air_station'', [])]"
proof -
  have c1: "clean_data example_mean iso_date [air_header] 0 ''timestamp''
     = Inr ([air_header_clean, air_header_clean], 1)" by code_simp
  have c2: "clean_data example_mean iso_date [hosp_header] 0 ''admission_date''
     = Inr ([hosp_header_clean, hosp_header_clean], 1)" by code_simp
  have h1: "map_of air_header_clean ''timestamp'' = Some (DtCol [])" by code_simp
  have h2: "map_of hosp_header_clean ''admission_date'' = Some (DtCol [])" by code_simp
  have h3: "map (\<lambda>(n, c). (''air_'' @ n, [] :: rat option list))
          (filter (\<lambda>(m, d). m \<noteq> ''timestamp'') air_header_clean)
     = [(''air_pm25'', []), (''air_station'', [])]" by code_simp
  note c = aggregate_monthly_empty [OF h1 h2 h2, of example_mean]
  from c1 c2 h1 h2 c h3 show ?thesis by (intro conjI)
qed

text \<open>
  Claim C9. A month between two months in which one source has rows is a row of the
  table, and when no source has a row in that month, every cell of that row is zero.
\<close>

theorem aggregate_monthly_gap_months:
  assumes ok: "aggregate_monthly avg air hosp jp = Inr t"
    and src: "ms \<in> {row_months (dates air ''timestamp''),
                     row_months (dates hosp ''admission_date''),
                     row_months (dates jp ''admission_date'')}"
    and between: "a \<in> set ms" "b \<in> set ms" "a \<le> k" "k \<le> b"
  shows "k \<in> set (index t)
       \<and> (k \<notin> set (row_months (dates air ''timestamp''))
          \<and> k \<notin> set (row_months (dates hosp ''admission_date''))
          \<and> k \<notin> set (row_months (dates jp ''admission_date''))
          \<longrightarrow> (\<forall>(n, xs) \<in> set (columns t). cell_at (index t) xs k = Some 0))"
proof -
  let ?air' = "filter (\<lambda>(m, d). m \<noteq> ''timestamp'') air"
  from aggregate_monthly_result [OF ok] obtain ai hi ji where
    ai: "map_of air ''timestamp'' = Some (DtCol ai)"
    and hi: "map_of hosp ''admission_date'' = Some (DtCol hi)"
    and ji: "map_of jp ''admission_date'' = Some (DtCol ji)"
    and t: "t = tab (sort (remdups (sort (remdups (month_bins ai @ month_bins hi)) @ month_bins ji)))
               (map (\<lambda>(n, g). (''air_'' @ n,
                        \<lambda>k. zero_fill (only_on (sort (remdups (month_bins ai @ month_bins hi)))
                               (only_on (month_bins ai) g) k)))
                    (bucket_means avg ai ?air')
                @ [(''hospitalizations_total'',
                      \<lambda>k. zero_fill (only_on (sort (remdups (month_bins ai @ month_bins hi)))
                             (only_on (month_bins hi) (\<lambda>k. Some (of_nat (length (bucket hi hi k))))) k)),
                   (''hospitalizations_jp'',
                      \<lambda>k. zero_fill (only_on (month_bins ji)
                             (\<lambda>k. Some (of_nat (length (bucket ji ji k)))) k))])"
    by blast
  note d = dates_DtCol [OF ai] dates_DtCol [OF hi] dates_DtCol [OF ji]
  from src have "ms = row_months ai \<or> ms = row_months hi \<or> ms = row_months ji"
    unfolding d by simp
  then have "k \<in> set (month_bins ai) \<or> k \<in> set (month_bins hi) \<or> k \<in> set (month_bins ji)"
    using between_in_bins [OF _ _ between(3,4)] between(1,2) by blast
  then have 1: "k \<in> set (index t)" unfolding t index_tab by auto
  have 2: "\<forall>(n, xs) \<in> set (columns t). cell_at (index t) xs k = Some 0"
    if none: "k \<notin> set (row_months ai)" "k \<notin> set (row_months hi)" "k \<notin> set (row_months ji)"
  proof -
    have "cell_at (index t) xs k = Some 0" if "(n, xs) \<in> set (columns t)" for n xs
    proof -
      from that obtain g where
        g: "xs = map g (index t)"
           "(\<exists>n0 g0. (n0, g0) \<in> set (bucket_means avg ai ?air')
               \<and> g = (\<lambda>k. zero_fill (only_on (sort (remdups (month_bins ai @ month_bins hi)))
                               (only_on (month_bins ai) g0) k)))
          \<or> g = (\<lambda>k. zero_fill (only_on (sort (remdups (month_bins ai @ month_bins hi)))
                             (only_on (month_bins hi) (\<lambda>k. Some (of_nat (length (bucket hi hi k))))) k))
          \<or> g = (\<lambda>k. zero_fill (only_on (month_bins ji)
                             (\<lambda>k. Some (of_nat (length (bucket ji ji k)))) k))"
        unfolding t columns_tab index_tab by auto
      have "g k = Some 0"
        using g(2) zero_fill_no_rows_mean [OF _ none(1)] zero_fill_no_rows_size2 [OF none(2)]
          zero_fill_no_rows_size [OF none(3)]
        by auto
      with 1 show ?thesis unfolding g(1) cell_at_map by (simp add: only_on_def)
    qed
    then show ?thesis by blast
  qed
  from 1 2 show ?thesis unfolding d by blast
qed

theorem aggregate_monthly_gap_months_witness:
  "aggregate_monthly example_mean air_jan hosp_jan_mar jp_mar = Inr monthly_example
   \<and> row_months (dates hosp_jan_mar ''admission_date'')
       \<in> {row_months (dates air_jan ''timestamp''),
          row_months (dates hosp_jan_mar ''admission_date''),
          row_months (dates jp_mar ''admission_date'')}
   \<and> 24288 \<in> set (row_months (dates hosp_jan_mar ''admission_date''))
   \<and> 24290 \<in> set (row_months (dates hosp_jan_mar ''admission_date''))
   \<and> (24288 :: int) \<le> 24289 \<and> (24289 :: int) \<le> 24290
   \<and> 24289 \<in> set (index monthly_example)
   \<and> 24289 \<notin> set (row_months (dates air_jan ''timestamp''))
   \<and> 24289 \<notin> set (row_months (dates hosp_jan_mar ''admission_date''))
   \<and> 24289 \<notin> set (row_months (dates jp_mar ''admission_date''))
   \<and> cell_at (index monthly_example) [Some 15, Some 0, Some 0] 24289 = Some 0
   \<and> cell_at (index monthly_example) [Some 1, Some 0, Some 1] 24289 = Some 0"
proof -
  have h1: "aggregate_monthly example_mean air_jan hosp_jan_mar jp_mar = Inr monthly_example"
    by code_simp
  have h2: "row_months (dates hosp_jan_mar ''admission_date'')
       \<in> {row_months (dates air_jan ''timestamp''),
          row_months (dates hosp_jan_mar ''admission_date''),
          row_months (dates jp_mar ''admission_date'')}" by simp
  have h3: "24288 \<in> set (row_months (dates hosp_jan_mar ''admission_date''))" by code_simp
  have h4: "24290 \<in> set (row_months (dates hosp_jan_mar ''admission_date''))" by code_simp
  have h5: "(24288 :: int) \<le> 24289" by simp
  have h6: "(24289 :: int) \<le> 24290" by simp
  have n1: "24289 \<notin> set (row_months (dates air_jan ''timestamp''))" by code_simp
  have n2: "24289 \<notin> set (row_months (dates hosp_jan_mar ''admission_date''))" by code_simp
  have n3: "24289 \<notin> set (row_months (dates jp_mar ''admission_date''))" by code_simp
  have m1: "(''air_pm25'', [Some 15, Some 0, Some 0]) \<in> set (columns monthly_example)"
    by (simp add: monthly_example_def)
  have m2: "(''hospitalizations_total'', [Some 1, Some 0, Some 1]) \<in> set (columns monthly_example)"
    by (simp add: monthly_example_def)
  note c = aggregate_monthly_gap_months [OF h1 h2 h3 h4 h5 h6]
  from c have c1: "24289 \<in> set (index monthly_example)" by (rule conjunct1)
  from c n1 n2 n3 have
    all: "\<forall>(n, xs) \<in> set (columns monthly_example). cell_at (index monthly_example) xs 24289 = Some 0"
    by blast
  from all m1 have c2: "cell_at (index monthly_example) [Some 15, Some 0, Some 0] 24289 = Some 0"
    by blast
  from all m2 have c3: "cell_at (index monthly_example) [Some 1, Some 0, Some 1] 24289 = Some 0"
    by blast
  from h1 h2 h3 h4 h5 h6 c1 n1 n2 n3 c2 c3 show ?thesis by (intro conjI)
qed




end
